theory Spec2Isabelle
  imports Complex_Main
begin

section \<open>Plugins::Server (src/app/src/Plugins/Server.cpp)\<close>

text \<open>
  The plugin server keeps three members: the flag \<open>m_enabled\<close>, the list of socket
  pointers \<open>m_sockets\<close> and the list of frames \<open>m_frames\<close>. A \<open>QTcpSocket *\<close> is
  modelled as \<open>socket option\<close>, \<open>None\<close> being the null pointer, and a socket object
  is identified by a number. Everything the slots do to the outside (writes to a
  socket, abort, close, deleteLater, message boxes, debug output, data handed to the
  I/O manager, emitted signals) is appended to the \<open>trace\<close>, in program order.

  The frame type \<open>JSON::Frame\<close> is not part of the sources at hand and is the type
  parameter \<open>'f\<close>. The compact JSON text that is written to a socket is kept
  symbolic: \<open>FramesMessage fs\<close> stands for the line
  \<^verbatim>\<open>{"frames":[{"data": f.serialize()}, ...]}\<close> built from the frames \<open>fs\<close>, and
  \<open>RawMessage bytes\<close> for the line \<^verbatim>\<open>{"data": base64(bytes)}\<close>.

  The environment supplies what the slots read of the sockets: the queue of pending
  connections of the \<open>QTcpServer\<close> (\<open>nextPendingConnection\<close> returns the null pointer
  when the queue is empty), the set of sockets for which \<open>isWritable()\<close> holds, and the
  set of sockets that are in the connected state.
  \<open>QObject::sender()\<close> is an explicit argument of every slot that asks for it.

  \<open>acceptConnection\<close> connects the \<open>disconnected()\<close> signal of every socket it appends to
  \<open>m_sockets\<close> to the slot \<open>removeConnection\<close>, in the server's own thread. A socket that
  leaves the connected state emits that signal, and the slot runs at once, inside the
  call that made the socket leave the state. \<open>abort()\<close> on a connected socket is such a
  call: \<open>removeConnection\<close> runs, with the socket as sender, before \<open>abort()\<close> returns.
\<close>

type_synonym socket = nat
type_synonym socket_ptr = "socket option"
type_synonym byte_array = string

datatype 'f message =
    FramesMessage "'f list"
  | RawMessage byte_array

datatype 'f effect =
    EnabledChanged
  | Abort socket
  | Close socket
  | DeleteLater socket
  | Write socket "'f message"
  | WriteData byte_array
  | MessageBox string string
  | DebugErrorString socket
  | DebugSocketError nat

record 'f server =
  m_enabled :: bool
  m_sockets :: "socket_ptr list"
  m_frames  :: "'f list"
  pending   :: "socket list"
  writable  :: "socket set"
  established :: "socket set"
  trace     :: "'f effect list"

definition emit :: "'f effect \<Rightarrow> 'f server \<Rightarrow> 'f server" where
  "emit e s = s\<lparr>trace := trace s @ [e]\<rparr>"

text \<open>
  The constructor: \<open>m_enabled(false)\<close>, both containers default-constructed. The
  connections \<open>p\<close> that wait at the \<open>QTcpServer\<close> are connected sockets.
\<close>

definition Server :: "socket list \<Rightarrow> socket set \<Rightarrow> 'f server" where
  "Server p w =
     \<lparr>m_enabled = False, m_sockets = [], m_frames = [], pending = p, writable = w,
      established = set p, trace = []\<rparr>"

definition enabled :: "'f server \<Rightarrow> bool" where
  "enabled s = m_enabled s"

subsection \<open>removeConnection\<close>

definition removeAt :: "nat \<Rightarrow> 'a list \<Rightarrow> 'a list" where
  "removeAt i xs = take i xs @ drop (Suc i) xs"

text \<open>
  The loop of \<open>removeConnection\<close>: on a match the element is removed and \<open>i\<close> is
  set to 0, after which the loop header's \<open>++i\<close> makes it 1.
\<close>

function removeConnection_loop :: "socket_ptr \<Rightarrow> nat \<Rightarrow> socket_ptr list \<Rightarrow> socket_ptr list" where
  "removeConnection_loop socket i xs =
     (if i < length xs then
        (if xs ! i = socket
         then removeConnection_loop socket (Suc 0) (removeAt i xs)
         else removeConnection_loop socket (Suc i) xs)
      else xs)"
  by pat_completeness auto
termination
  by (relation "measures [\<lambda>(socket, i, xs). length xs, \<lambda>(socket, i, xs). length xs - i]")
     (auto simp: removeAt_def)

declare removeConnection_loop.simps [simp del]

definition removeConnection :: "socket_ptr \<Rightarrow> 'f server \<Rightarrow> 'f server" where
  "removeConnection sender s =
     (case sender of
        None \<Rightarrow> s
      | Some c \<Rightarrow>
          emit (DeleteLater c)
            (s\<lparr>m_sockets := removeConnection_loop (Some c) 0 (m_sockets s)\<rparr>))"

subsection \<open>setEnabled\<close>

text \<open>
  \<open>socket->abort()\<close>: the socket is reset; when it was connected, it emits
  \<open>disconnected()\<close> and the slot \<open>removeConnection\<close> runs with it as the sender.
\<close>

definition abort :: "socket \<Rightarrow> 'f server \<Rightarrow> 'f server" where
  "abort c s =
     (let s1 = emit (Abort c) s in
      if c \<in> established s1
      then removeConnection (Some c) (s1\<lparr>established := established s1 - {c}\<rparr>)
      else s1)"

text \<open>
  The loop of \<open>setEnabled\<close> reads \<open>m_sockets.count()\<close> and \<open>m_sockets.at(i)\<close> from the
  member itself in every round, so it sees what \<open>removeConnection\<close> removed during
  \<open>abort()\<close>.
\<close>

function setEnabled_loop :: "nat \<Rightarrow> 'f server \<Rightarrow> 'f server" where
  "setEnabled_loop i s =
     (if i < length (m_sockets s) then
        (case m_sockets s ! i of
           None \<Rightarrow> setEnabled_loop (Suc i) s
         | Some socket \<Rightarrow> setEnabled_loop (Suc i) (emit (DeleteLater socket) (abort socket s)))
      else s)"
  by pat_completeness auto
termination
proof -
  have len: "length (removeConnection_loop x j xs) \<le> length xs"
    for x :: socket_ptr and j xs
  proof (induction x j xs rule: removeConnection_loop.induct)
    case (1 socket i xs)
    show ?case
    proof (cases "i < length xs")
      case False
      then show ?thesis by (subst removeConnection_loop.simps) simp
    next
      case True
      show ?thesis
      proof (cases "xs ! i = socket")
        case hit: True
        have "length (removeConnection_loop socket (Suc 0) (removeAt i xs))
              \<le> length (removeAt i xs)"
          using "1.IH"(1) True hit by simp
        also have "\<dots> \<le> length xs" by (simp add: removeAt_def)
        finally show ?thesis
          using True hit by (subst removeConnection_loop.simps) simp
      next
        case miss: False
        with "1.IH"(2) True show ?thesis
          by (subst removeConnection_loop.simps) simp
      qed
    qed
  qed
  have ab: "length (m_sockets (emit (DeleteLater c) (abort c s))) \<le> length (m_sockets s)"
    for c and s :: "'f server"
    using len [of "Some c" 0 "m_sockets s"]
    by (simp add: abort_def removeConnection_def emit_def Let_def)
  show ?thesis
  proof (relation "measure (\<lambda>(i, s). length (m_sockets s) - i)")
    show "wf (measure (\<lambda>(i, s :: 'f server). length (m_sockets s) - i))"
      by simp
  next
    fix i and s :: "'f server"
    assume "i < length (m_sockets s)"
    then show "((Suc i, s), i, s) \<in> measure (\<lambda>(i, s). length (m_sockets s) - i)"
      by simp
  next
    fix i c and s :: "'f server"
    assume "i < length (m_sockets s)"
    with ab [of c s]
    show "((Suc i, emit (DeleteLater c) (abort c s)), i, s)
          \<in> measure (\<lambda>(i, s). length (m_sockets s) - i)"
      by simp
  qed
qed

declare setEnabled_loop.simps [simp del]

definition setEnabled :: "bool \<Rightarrow> 'f server \<Rightarrow> 'f server" where
  "setEnabled en s =
     (let s1 = emit EnabledChanged (s\<lparr>m_enabled := en\<rparr>);
          s2 = (if \<not> en then (setEnabled_loop 0 s1)\<lparr>m_sockets := []\<rparr> else s1)
      in s2\<lparr>m_frames := []\<rparr>)"

subsection \<open>onDataReceived\<close>

text \<open>\<open>socket->readAll()\<close> is the argument \<open>bytes\<close>.\<close>

definition onDataReceived :: "socket_ptr \<Rightarrow> byte_array \<Rightarrow> 'f server \<Rightarrow> 'f server" where
  "onDataReceived sender bytes s =
     (if enabled s \<and> sender \<noteq> None then emit (WriteData bytes) s else s)"

subsection \<open>acceptConnection\<close>

definition nextPendingConnection :: "'f server \<Rightarrow> socket_ptr \<times> 'f server" where
  "nextPendingConnection s =
     (case pending s of
        [] \<Rightarrow> (None, s)
      | c # cs \<Rightarrow> (Some c, s\<lparr>pending := cs\<rparr>))"

text \<open>
  \<open>socket->close()\<close> in the disabled branch: no slot has been connected to this socket
  yet, so leaving the connected state runs nothing of the server.
\<close>

definition close :: "socket \<Rightarrow> 'f server \<Rightarrow> 'f server" where
  "close c s = emit (Close c) (s\<lparr>established := established s - {c}\<rparr>)"

definition acceptConnection :: "'f server \<Rightarrow> 'f server" where
  "acceptConnection s0 =
     (let (socket, s) = nextPendingConnection s0 in
      if socket = None \<and> enabled s
      then emit (MessageBox ''Plugin server'' ''Invalid pending connection'') s
      else if \<not> enabled s
      then (case socket of
              None \<Rightarrow> s
            | Some c \<Rightarrow> emit (DeleteLater c) (close c s))
      else s\<lparr>m_sockets := m_sockets s @ [socket]\<rparr>)"

subsection \<open>sendProcessedData and sendRawData\<close>

text \<open>The \<open>Q_FOREACH\<close> loop over the sockets, shared by both senders.\<close>

primrec write_each :: "'f message \<Rightarrow> socket_ptr list \<Rightarrow> 'f server \<Rightarrow> 'f server" where
  "write_each json [] s = s"
| "write_each json (p # ps) s =
     (case p of
        None \<Rightarrow> write_each json ps s
      | Some c \<Rightarrow>
          write_each json ps (if c \<in> writable s then emit (Write c json) s else s))"

definition sendProcessedData :: "'f server \<Rightarrow> 'f server" where
  "sendProcessedData s =
     (if \<not> enabled s then s
      else if length (m_frames s) \<le> 0 then s
      else if length (m_sockets s) < 1 then s
      else
        (let array = m_frames s;
             s1 = (if length array > 0
                   then write_each (FramesMessage array) (m_sockets s) s
                   else s)
         in s1\<lparr>m_frames := []\<rparr>))"

definition sendRawData :: "byte_array \<Rightarrow> 'f server \<Rightarrow> 'f server" where
  "sendRawData data s =
     (if \<not> enabled s then s
      else if length (m_sockets s) < 1 then s
      else write_each (RawMessage data) (m_sockets s) s)"

subsection \<open>registerFrame\<close>

definition registerFrame :: "'f \<Rightarrow> 'f server \<Rightarrow> 'f server" where
  "registerFrame frame s =
     (if enabled s then s\<lparr>m_frames := m_frames s @ [frame]\<rparr> else s)"

subsection \<open>onErrorOccurred\<close>

definition onErrorOccurred :: "socket_ptr \<Rightarrow> nat \<Rightarrow> 'f server \<Rightarrow> 'f server" where
  "onErrorOccurred sender socketError s =
     (case sender of
        Some c \<Rightarrow> emit (DebugErrorString c) s
      | None \<Rightarrow> emit (DebugSocketError socketError) s)"

subsection \<open>The slots as operations of a state machine\<close>

text \<open>
  The reactor dispatches one event at a time. \<open>Environment p w\<close> is the outside world
  acting between two events: new connected sockets queue up at the \<open>QTcpServer\<close> and the
  set of writable sockets changes. \<open>Disconnected c\<close> is the peer of socket \<open>c\<close> closing
  the connection: the socket leaves the connected state and, when it is one of
  \<open>m_sockets\<close>, its \<open>disconnected()\<close> signal runs \<open>removeConnection\<close>.
\<close>

datatype 'f operation =
    SetEnabled bool
  | AcceptConnection
  | RegisterFrame 'f
  | SendProcessedData
  | SendRawData byte_array
  | RemoveConnection socket_ptr
  | OnDataReceived socket_ptr byte_array
  | OnErrorOccurred socket_ptr nat
  | Disconnected socket
  | Environment "socket list" "socket set"

fun step :: "'f operation \<Rightarrow> 'f server \<Rightarrow> 'f server" where
  "step (SetEnabled en) s = setEnabled en s"
| "step AcceptConnection s = acceptConnection s"
| "step (RegisterFrame f) s = registerFrame f s"
| "step SendProcessedData s = sendProcessedData s"
| "step (SendRawData data) s = sendRawData data s"
| "step (RemoveConnection sender) s = removeConnection sender s"
| "step (OnDataReceived sender bytes) s = onDataReceived sender bytes s"
| "step (OnErrorOccurred sender err) s = onErrorOccurred sender err s"
| "step (Disconnected c) s =
     (let s1 = s\<lparr>established := established s - {c}\<rparr>
      in if Some c \<in> set (m_sockets s1) then removeConnection (Some c) s1 else s1)"
| "step (Environment p w) s =
     s\<lparr>pending := pending s @ p, writable := w, established := established s \<union> set p\<rparr>"

definition run :: "'f operation list \<Rightarrow> 'f server \<Rightarrow> 'f server" where
  "run ops s = fold step ops s"

definition disabled_inv :: "'f server \<Rightarrow> bool" where
  "disabled_inv s \<longleftrightarrow> (\<not> enabled s \<longrightarrow> m_sockets s = [] \<and> m_frames s = [])"

subsection \<open>Concrete server states\<close>

definition flush_state :: "nat server" where
  "flush_state = registerFrame 7 (setEnabled True (Server [] {}))"

definition connected_state :: "socket set \<Rightarrow> nat server" where
  "connected_state w =
     registerFrame 7 (acceptConnection (setEnabled True (Server [3] w)))"

definition busy_state :: "nat server" where
  "busy_state =
     run [SetEnabled True, Environment [3, 4] {3}, AcceptConnection, AcceptConnection,
          RegisterFrame 7] (Server [] {})"

section \<open>JSON::FrameParser (src/app/src/JSON/FrameParser.cpp)\<close>

text \<open>
  \<open>loadScript\<close> and \<open>parse\<close> talk to a \<open>QJSEngine\<close>, which is Qt's and not part of the
  sources. The engine is therefore a parameter: a record of the operations the two
  functions use, over an engine state \<open>'e\<close> and script values \<open>'v\<close> (\<open>QJSValue\<close>).
  \<open>evaluate\<close> returns the list it stores through the \<open>exceptionStackTrace\<close> pointer
  (the \<open>errors\<close> of \<open>loadScript\<close>) and the engine afterwards; its \<open>QJSValue\<close> result is
  discarded by the caller. \<open>globalProperty name\<close> is
  \<open>m_engine.globalObject().property(name)\<close>. \<open>call\<close> runs a script function, which may
  change the engine.

  The parser keeps the engine and the member \<open>m_parseFunction\<close>. Message boxes and
  calls of script functions are recorded, in program order, in \<open>events\<close>.
  \<open>tr\<close> is the identity on the source strings.
\<close>

datatype ErrorType =
    NoError | GenericError | EvalError | RangeError | ReferenceError
  | SyntaxError | TypeError | URIError

record ('e, 'v) QJSEngine =
  installExtensions :: "'e \<Rightarrow> 'e"
  evaluate :: "string \<Rightarrow> 'e \<Rightarrow> string list \<times> 'e"
  globalProperty :: "string \<Rightarrow> 'e \<Rightarrow> 'v"
  call :: "'v \<Rightarrow> 'v list \<Rightarrow> 'e \<Rightarrow> 'v \<times> 'e"
  isNull :: "'v \<Rightarrow> bool"
  isCallable :: "'v \<Rightarrow> bool"
  isError :: "'v \<Rightarrow> bool"
  errorType :: "'v \<Rightarrow> ErrorType"
  fromString :: "string \<Rightarrow> 'v"
  toStringList :: "'v \<Rightarrow> string list"

datatype 'v script_event =
    ShowMessageBox string string
  | Called 'v "'v list"

record ('e, 'v) FrameParser =
  m_engine :: 'e
  m_parseFunction :: 'v
  events :: "'v script_event list"

definition showMessageBox ::
  "string \<Rightarrow> string \<Rightarrow> ('e, 'v) FrameParser \<Rightarrow> ('e, 'v) FrameParser" where
  "showMessageBox text informativeText p =
     p\<lparr>events := events p @ [ShowMessageBox text informativeText]\<rparr>"

definition call_logged ::
  "('e, 'v) QJSEngine \<Rightarrow> 'v \<Rightarrow> 'v list \<Rightarrow> ('e, 'v) FrameParser \<Rightarrow> 'v \<times> ('e, 'v) FrameParser" where
  "call_logged E func args p =
     (let (ret, e) = call E func args (m_engine p)
      in (ret, p\<lparr>m_engine := e, events := events p @ [Called func args]\<rparr>))"

fun errorStr :: "ErrorType \<Rightarrow> string" where
  "errorStr GenericError = ''Generic error''"
| "errorStr EvalError = ''Evaluation error''"
| "errorStr RangeError = ''Range error''"
| "errorStr ReferenceError = ''Reference error''"
| "errorStr SyntaxError = ''Syntax error''"
| "errorStr TypeError = ''Type error''"
| "errorStr URIError = ''URI error''"
| "errorStr NoError = ''Unknown error''"

definition parse ::
  "('e, 'v) QJSEngine \<Rightarrow> string \<Rightarrow> string \<Rightarrow> ('e, 'v) FrameParser
     \<Rightarrow> string list \<times> ('e, 'v) FrameParser" where
  "parse E frame separator p =
     (let args = [fromString E frame, fromString E separator];
          (ret, p1) = call_logged E (m_parseFunction p) args p;
          out = toStringList E ret;
          list = fold (\<lambda>i list. list @ [out ! i]) [0..<length out] []
      in (list, p1))"

definition loadScript ::
  "('e, 'v) QJSEngine \<Rightarrow> string \<Rightarrow> ('e, 'v) FrameParser \<Rightarrow> bool \<times> ('e, 'v) FrameParser" where
  "loadScript E script p =
     (let (errors, e) = evaluate E script (installExtensions E (m_engine p));
          p1 = p\<lparr>m_engine := e\<rparr>;
          func = globalProperty E ''parse'' (m_engine p1)
      in if isNull E func \<or> \<not> isCallable E func
         then (False, showMessageBox ''Frame parser error!''
                        ''No parse() function has been declared!'' p1)
         else
           (let args = [fromString E '''', fromString E '',''];
                (ret, p2) = call_logged E func args p1
            in if errors \<noteq> []
               then (False, showMessageBox ''Frame parser syntax error!''
                              (''Error on line '' @ hd errors @ ''.'') p2)
               else if isError E ret
               then (False, showMessageBox ''Frame parser error detected!''
                              (errorStr (errorType E ret)) p2)
               else (True, p2\<lparr>m_parseFunction := func\<rparr>)))"

text \<open>What \<open>loadScript\<close> observes of a script: the errors collected by the evaluation,
  the global property \<open>parse\<close> afterwards, and the result of calling it.\<close>

definition evaluation_errors :: "('e, 'v) QJSEngine \<Rightarrow> string \<Rightarrow> ('e, 'v) FrameParser \<Rightarrow> string list" where
  "evaluation_errors E script p = fst (evaluate E script (installExtensions E (m_engine p)))"

definition parse_property :: "('e, 'v) QJSEngine \<Rightarrow> string \<Rightarrow> ('e, 'v) FrameParser \<Rightarrow> 'v" where
  "parse_property E script p =
     globalProperty E ''parse'' (snd (evaluate E script (installExtensions E (m_engine p))))"

definition smoke_result :: "('e, 'v) QJSEngine \<Rightarrow> string \<Rightarrow> ('e, 'v) FrameParser \<Rightarrow> 'v" where
  "smoke_result E script p =
     fst (call E (parse_property E script p) [fromString E '''', fromString E '','']
            (snd (evaluate E script (installExtensions E (m_engine p)))))"

definition not_callable :: "('e, 'v) QJSEngine \<Rightarrow> 'v \<Rightarrow> bool" where
  "not_callable E v \<longleftrightarrow> isNull E v \<or> \<not> isCallable E v"

definition load_fails :: "('e, 'v) QJSEngine \<Rightarrow> string \<Rightarrow> ('e, 'v) FrameParser \<Rightarrow> bool" where
  "load_fails E script p \<longleftrightarrow>
     evaluation_errors E script p \<noteq> []
     \<or> not_callable E (parse_property E script p)
     \<or> isError E (smoke_result E script p)"

fun is_call :: "'v script_event \<Rightarrow> bool" where
  "is_call (Called f args) = True"
| "is_call (ShowMessageBox t i) = False"

subsection \<open>A small engine for evaluating the model\<close>

text \<open>
  The theorems below hold for every engine. To run \<open>loadScript\<close> on concrete inputs, this
  engine knows four scripts by their text (one that declares a working \<open>parse\<close>, one
  whose \<open>parse\<close> throws a RangeError, one that sets \<open>parse\<close> to null, one that declares
  only a variable) and reports an error on line 1 for any other text, leaving the global
  scope as it was.
\<close>

datatype toy_value =
    TUndefined | TNull | TString string | TStrings "string list"
  | TFunction nat | TError ErrorType

type_synonym toy_scope = "(string \<times> toy_value) list"

definition toy_evaluate :: "string \<Rightarrow> toy_scope \<Rightarrow> string list \<times> toy_scope" where
  "toy_evaluate script e =
     (if script = ''function parse(frame, separator) { return [frame]; }''
      then ([], (''parse'', TFunction 1) # e)
      else if script = ''function parse(frame, separator) { throw new RangeError(); }''
      then ([], (''parse'', TFunction 2) # e)
      else if script = ''var parse = null;''
      then ([], (''parse'', TNull) # e)
      else if script = ''var x = 1;''
      then ([], (''x'', TString ''1'') # e)
      else ([''1''], e))"

definition toy_property :: "string \<Rightarrow> toy_scope \<Rightarrow> toy_value" where
  "toy_property name e = (case map_of e name of None \<Rightarrow> TUndefined | Some v \<Rightarrow> v)"

fun toy_call :: "toy_value \<Rightarrow> toy_value list \<Rightarrow> toy_scope \<Rightarrow> toy_value \<times> toy_scope" where
  "toy_call (TFunction n) args e =
     (if n = 1 then
        (case args of TString frame # _ \<Rightarrow> (TStrings [frame], e) | _ \<Rightarrow> (TStrings [], e))
      else (TError RangeError, e))"
| "toy_call v args e = (TError TypeError, e)"

fun toy_isCallable :: "toy_value \<Rightarrow> bool" where
  "toy_isCallable (TFunction n) = True"
| "toy_isCallable v = False"

fun toy_isError :: "toy_value \<Rightarrow> bool" where
  "toy_isError (TError t) = True"
| "toy_isError v = False"

fun toy_errorType :: "toy_value \<Rightarrow> ErrorType" where
  "toy_errorType (TError t) = t"
| "toy_errorType v = NoError"

fun toy_toStringList :: "toy_value \<Rightarrow> string list" where
  "toy_toStringList (TStrings xs) = xs"
| "toy_toStringList (TString x) = [x]"
| "toy_toStringList v = []"

definition toy_engine :: "(toy_scope, toy_value) QJSEngine" where
  "toy_engine =
     \<lparr>installExtensions = (\<lambda>e. e), evaluate = toy_evaluate, globalProperty = toy_property,
      call = toy_call, isNull = (\<lambda>v. v = TNull), isCallable = toy_isCallable,
      isError = toy_isError, errorType = toy_errorType, fromString = TString,
      toStringList = toy_toStringList\<rparr>"

definition toy_parser :: "(toy_scope, toy_value) FrameParser" where
  "toy_parser = \<lparr>m_engine = [], m_parseFunction = TUndefined, events = []\<rparr>"

record ProjectModel =
  m_separator :: string
  m_frameParserCode :: string

definition semicolon_project :: ProjectModel where
  "semicolon_project =
     \<lparr>m_separator = '';'',
      m_frameParserCode = ''function parse(frame, separator) { return [frame]; }''\<rparr>"

definition loaded_parser :: "(toy_scope, toy_value) FrameParser" where
  "loaded_parser =
     snd (loadScript toy_engine ''function parse(frame, separator) { return [frame]; }''
            toy_parser)"

section \<open>JSON::Group::read (src/app/src/JSON/Group.cpp)\<close>

text \<open>
  A \<open>QJsonValue\<close> is a value of the datatype \<open>json\<close>; a \<open>QJsonObject\<close> is the list of
  its members, looked up with \<open>map_of\<close>. \<open>value(key)\<close> of a missing key is
  \<open>JUndefined\<close>; \<open>toArray()\<close> and \<open>toObject()\<close> of a value of another kind are empty.
  \<open>QVariant::toString()\<close> of a variant that holds a \<open>QJsonValue\<close> is the string of a JSON
  string and empty for every other kind. \<open>QString::simplified()\<close> strips white space at
  both ends and replaces every inner run of white space by one space; white space is
  the ASCII part of \<open>QChar::isSpace\<close>.

  \<open>Dataset::read\<close> is not part of the sources at hand. It is the parameter
  \<open>Dataset_read groupId i object\<close>: the dataset constructed as \<open>Dataset(m_groupId, i)\<close>
  after a successful \<open>read(object)\<close>, or \<open>None\<close> when \<open>read\<close> returns false.
\<close>

datatype json =
    JUndefined | JNull | JBool bool | JDouble real | JString string
  | JArray "json list" | JObject "(string \<times> json) list"

type_synonym QJsonObject = "(string \<times> json) list"

definition isEmpty :: "'a list \<Rightarrow> bool" where
  "isEmpty xs \<longleftrightarrow> xs = []"

definition contains :: "QJsonObject \<Rightarrow> string \<Rightarrow> bool" where
  "contains object key \<longleftrightarrow> map_of object key \<noteq> None"

definition json_value :: "QJsonObject \<Rightarrow> string \<Rightarrow> json" where
  "json_value object key = (case map_of object key of None \<Rightarrow> JUndefined | Some v \<Rightarrow> v)"

fun toArray :: "json \<Rightarrow> json list" where
  "toArray (JArray xs) = xs"
| "toArray v = []"

fun toObject :: "json \<Rightarrow> QJsonObject" where
  "toObject (JObject kvs) = kvs"
| "toObject v = []"

datatype QVariant = VJsonValue json | VString string

fun toString :: "QVariant \<Rightarrow> string" where
  "toString (VString s) = s"
| "toString (VJsonValue (JString s)) = s"
| "toString (VJsonValue v) = []"

definition isSpace :: "char \<Rightarrow> bool" where
  "isSpace c \<longleftrightarrow> c \<in> {CHR 0x09, CHR 0x0A, CHR 0x0B, CHR 0x0C, CHR 0x0D, CHR '' ''}"

definition trimmed :: "string \<Rightarrow> string" where
  "trimmed s = rev (dropWhile isSpace (rev (dropWhile isSpace s)))"

fun collapse :: "string \<Rightarrow> string" where
  "collapse [] = []"
| "collapse [c] = [if isSpace c then CHR '' '' else c]"
| "collapse (c # d # cs) =
     (if isSpace c then (if isSpace d then collapse (d # cs) else CHR '' '' # collapse (d # cs))
      else c # collapse (d # cs))"

definition simplified :: "string \<Rightarrow> string" where
  "simplified s = collapse (trimmed s)"

definition SAFE_READ :: "QJsonObject \<Rightarrow> string \<Rightarrow> QVariant \<Rightarrow> QVariant" where
  "SAFE_READ object key defaultValue =
     (if contains object key then VJsonValue (json_value object key) else defaultValue)"

record 'd Group =
  m_groupId :: int
  m_title :: string
  m_widget :: string
  m_datasets :: "'d list"

type_synonym 'd Dataset_read = "int \<Rightarrow> nat \<Rightarrow> QJsonObject \<Rightarrow> 'd option"

definition Group :: "int \<Rightarrow> 'd Group" where
  "Group groupId = \<lparr>m_groupId = groupId, m_title = '''', m_widget = '''', m_datasets = []\<rparr>"

definition datasetCount :: "'d Group \<Rightarrow> nat" where
  "datasetCount g = length (m_datasets g)"

fun read_loop :: "'d Dataset_read \<Rightarrow> json list \<Rightarrow> nat \<Rightarrow> 'd Group \<Rightarrow> 'd Group" where
  "read_loop Dataset_read [] i g = g"
| "read_loop Dataset_read (v # vs) i g =
     (let object = toObject v;
          g1 = (if \<not> isEmpty object
                then (case Dataset_read (m_groupId g) i object of
                        Some dataset \<Rightarrow> g\<lparr>m_datasets := m_datasets g @ [dataset]\<rparr>
                      | None \<Rightarrow> g)
                else g)
      in read_loop Dataset_read vs (Suc i) g1)"

definition Group_read :: "'d Dataset_read \<Rightarrow> QJsonObject \<Rightarrow> 'd Group \<Rightarrow> bool \<times> 'd Group" where
  "Group_read Dataset_read object g =
     (if \<not> isEmpty object then
        (let array = toArray (json_value object ''datasets'');
             title = simplified (toString (SAFE_READ object ''title'' (VString '''')));
             widget = simplified (toString (SAFE_READ object ''widget'' (VString '''')))
         in if \<not> isEmpty title \<and> \<not> isEmpty array then
              (let g1 = g\<lparr>m_title := title, m_widget := widget, m_datasets := []\<rparr>;
                   g2 = read_loop Dataset_read array 0 g1
               in (datasetCount g2 > 0, g2))
            else (False, g))
      else (False, g))"

text \<open>A stand-in for Dataset::read: accepts an object that has a "title" member.\<close>

definition titled_dataset :: "string Dataset_read" where
  "titled_dataset groupId i object =
     (case map_of object ''title'' of Some (JString t) \<Rightarrow> Some t | _ \<Rightarrow> None)"

definition old_group :: "string Group" where
  "old_group = \<lparr>m_groupId = 2, m_title = ''Old'', m_widget = ''map'', m_datasets = [''lat'']\<rparr>"

definition bad_datasets_object :: QJsonObject where
  "bad_datasets_object =
     [(''title'', JString ''  New   title ''), (''datasets'', JArray [JNull, JObject []])]"

definition good_object :: QJsonObject where
  "good_object =
     [(''title'', JString ''  New   title ''), (''widget'', JString ''gauge''),
      (''datasets'', JArray [JNull, JObject [(''title'', JString ''x'')]])]"

section \<open>Properties of the plugin server\<close>

lemma emit_fields [simp]:
  "m_enabled (emit e s) = m_enabled s"
  "m_sockets (emit e s) = m_sockets s"
  "m_frames (emit e s) = m_frames s"
  "pending (emit e s) = pending s"
  "writable (emit e s) = writable s"
  "established (emit e s) = established s"
  "trace (emit e s) = trace s @ [e]"
  by (simp_all add: emit_def)

lemma removeConnection_fields [simp]:
  "m_enabled (removeConnection sender s) = m_enabled s"
  "m_frames (removeConnection sender s) = m_frames s"
  "pending (removeConnection sender s) = pending s"
  "writable (removeConnection sender s) = writable s"
  "established (removeConnection sender s) = established s"
  by (cases sender; simp add: removeConnection_def)+

lemma abort_fields [simp]:
  "m_enabled (abort c s) = m_enabled s"
  "m_frames (abort c s) = m_frames s"
  "pending (abort c s) = pending s"
  "writable (abort c s) = writable s"
  by (simp_all add: abort_def Let_def)

lemma setEnabled_loop_keeps:
  "m_enabled (setEnabled_loop i s) = m_enabled s
   \<and> m_frames (setEnabled_loop i s) = m_frames s
   \<and> pending (setEnabled_loop i s) = pending s
   \<and> writable (setEnabled_loop i s) = writable s"
proof (induction i s rule: setEnabled_loop.induct)
  case (1 i s)
  show ?case
  proof (cases "i < length (m_sockets s)")
    case False
    then have "setEnabled_loop i s = s"
      by (subst setEnabled_loop.simps) simp
    then show ?thesis by simp
  next
    case True
    show ?thesis
    proof (cases "m_sockets s ! i")
      case None
      with True have "setEnabled_loop i s = setEnabled_loop (Suc i) s"
        by (subst setEnabled_loop.simps) simp
      with True None "1.IH"(1) show ?thesis by simp
    next
      case (Some c)
      with True have "setEnabled_loop i s =
          setEnabled_loop (Suc i) (emit (DeleteLater c) (abort c s))"
        by (subst setEnabled_loop.simps) simp
      with True Some "1.IH"(2) show ?thesis by simp
    qed
  qed
qed

lemma setEnabled_loop_fields [simp]:
  "m_enabled (setEnabled_loop i s) = m_enabled s"
  "m_frames (setEnabled_loop i s) = m_frames s"
  "pending (setEnabled_loop i s) = pending s"
  "writable (setEnabled_loop i s) = writable s"
  by (simp_all add: setEnabled_loop_keeps)

lemma write_each_fields [simp]:
  "m_enabled (write_each j ps s) = m_enabled s"
  "m_sockets (write_each j ps s) = m_sockets s"
  "m_frames (write_each j ps s) = m_frames s"
  "pending (write_each j ps s) = pending s"
  "writable (write_each j ps s) = writable s"
  "established (write_each j ps s) = established s"
  by (induction ps arbitrary: s; simp split: option.splits)+

text \<open>
  C10. Every call of \<open>setEnabled\<close> leaves \<open>m_frames\<close> empty, whatever the argument;
  in particular a frame registered while enabled is gone after \<open>setEnabled(true)\<close>.
  The socket list is untouched by \<open>setEnabled(true)\<close> and emptied by
  \<open>setEnabled(false)\<close>.
\<close>

theorem setEnabled_clears_frames:
  "m_frames (setEnabled en s) = []
   \<and> m_frames (setEnabled True (registerFrame f s)) = []
   \<and> m_sockets (setEnabled True s) = m_sockets s
   \<and> m_sockets (setEnabled False s) = []"
  by (simp add: setEnabled_def Let_def)

lemma emit_other [simp]: "emit e (s\<lparr>m_frames := x\<rparr>) = (emit e s)\<lparr>m_frames := x\<rparr>"
  by (simp add: emit_def)

lemma removeConnection_loop_absent:
  "socket \<notin> set xs \<Longrightarrow> removeConnection_loop socket i xs = xs"
proof (induction socket i xs rule: removeConnection_loop.induct)
  case (1 socket i xs)
  show ?case
  proof (cases "i < length xs")
    case True
    with "1.prems" have "xs ! i \<noteq> socket" by (metis nth_mem)
    with True "1.IH"(2) "1.prems" show ?thesis
      by (subst removeConnection_loop.simps) simp
  next
    case False
    then show ?thesis by (subst removeConnection_loop.simps) simp
  qed
qed

lemma filter_neq_absent: "a \<notin> set ys \<Longrightarrow> filter (\<lambda>x. x \<noteq> a) ys = ys"
  by (induction ys) auto

lemma removeAt_distinct_filter:
  assumes "distinct xs" "i < length xs"
  shows "removeAt i xs = filter (\<lambda>x. x \<noteq> xs ! i) xs"
proof -
  let ?a = "xs ! i"
  have xs: "xs = take i xs @ ?a # drop (Suc i) xs"
    using assms(2) by (simp add: id_take_nth_drop)
  have "distinct (take i xs @ ?a # drop (Suc i) xs)"
    using assms(1) xs by simp
  then have l: "?a \<notin> set (take i xs)" and r: "?a \<notin> set (drop (Suc i) xs)"
    by auto
  have "filter (\<lambda>x. x \<noteq> ?a) xs
        = filter (\<lambda>x. x \<noteq> ?a) (take i xs @ ?a # drop (Suc i) xs)"
    using xs by simp
  also have "\<dots> = take i xs @ drop (Suc i) xs"
    by (simp add: filter_neq_absent [OF l] filter_neq_absent [OF r])
  finally show ?thesis by (simp add: removeAt_def)
qed

lemma removeConnection_loop_distinct:
  "distinct xs \<Longrightarrow> socket \<notin> set (take i xs)
   \<Longrightarrow> removeConnection_loop socket i xs = filter (\<lambda>x. x \<noteq> socket) xs"
proof (induction socket i xs rule: removeConnection_loop.induct)
  case (1 socket i xs)
  show ?case
  proof (cases "i < length xs")
    case False
    with "1.prems"(2) have "socket \<notin> set xs" by simp
    then have "filter (\<lambda>x. x \<noteq> socket) xs = xs" by (auto simp: filter_id_conv)
    with False show ?thesis by (subst removeConnection_loop.simps) simp
  next
    case True
    show ?thesis
    proof (cases "xs ! i = socket")
      case hit: True
      have eq: "removeAt i xs = filter (\<lambda>x. x \<noteq> socket) xs"
        using removeAt_distinct_filter [OF "1.prems"(1) True] hit by simp
      then have "socket \<notin> set (removeAt i xs)" by simp
      then have "removeConnection_loop socket (Suc 0) (removeAt i xs) = removeAt i xs"
        by (rule removeConnection_loop_absent)
      with True hit eq show ?thesis by (subst removeConnection_loop.simps) simp
    next
      case miss: False
      from True miss "1.prems"(2) have "socket \<notin> set (take (Suc i) xs)"
        by (auto simp: take_Suc_conv_app_nth)
      with "1.IH"(2) [OF True miss "1.prems"(1)] True miss show ?thesis
        by (subst removeConnection_loop.simps) simp
    qed
  qed
qed

lemma removeConnection_distinct:
  "distinct (m_sockets s) \<Longrightarrow>
   m_sockets (removeConnection (Some c) s) = filter (\<lambda>x. x \<noteq> Some c) (m_sockets s)"
  by (simp add: removeConnection_def removeConnection_loop_distinct)

text \<open>
  C1, as stated, fails. In an enabled server with one registered frame and no socket,
  \<open>sendProcessedData\<close> returns at the check "no sockets are available" and the frame is
  still in \<open>m_frames\<close> afterwards.
\<close>

theorem sendProcessedData_keeps_frames_counterexample:
  "enabled flush_state \<and> m_sockets flush_state = []
   \<and> m_frames (sendProcessedData flush_state) = [7]"
  by (simp add: flush_state_def sendProcessedData_def registerFrame_def setEnabled_def
      Server_def enabled_def emit_def Let_def)

text \<open>
  C1, amended. In every enabled state, after \<open>sendProcessedData\<close> the list \<open>m_frames\<close> is
  empty when the socket list is non-empty, whether or not any socket is writable, and
  is what it was when the socket list is empty. The socket list is not changed.
\<close>

theorem sendProcessedData_frames:
  "enabled s \<Longrightarrow>
   m_frames (sendProcessedData s) = (if m_sockets s = [] then m_frames s else [])
   \<and> m_sockets (sendProcessedData s) = m_sockets s"
  by (simp add: sendProcessedData_def Let_def)

theorem sendProcessedData_frames_witness:
  "enabled (connected_state {}) \<and> m_sockets (connected_state {}) = [Some 3]
   \<and> m_frames (connected_state {}) = [7]
   \<and> m_frames (sendProcessedData (connected_state {})) = []
   \<and> trace (sendProcessedData (connected_state {})) = trace (connected_state {})"
  using sendProcessedData_frames [of "connected_state {}"]
  by (simp add: connected_state_def sendProcessedData_def registerFrame_def
      acceptConnection_def nextPendingConnection_def setEnabled_def
      Server_def enabled_def emit_def Let_def)

text \<open>
  C2. The claim holds for the disconnect handler on duplicate-free socket lists (lemma
  \<open>removeConnection_distinct\<close>) but not for the error handler: \<open>onErrorOccurred\<close>, whose
  comment says that it disconnects the socket from the host, only prints the error
  and leaves the sender in \<open>m_sockets\<close>. Evaluated on an enabled server
  with the single connection 3: after the error handler the list is still \<open>[Some 3]\<close>,
  after the disconnect handler it is empty.
\<close>

theorem onErrorOccurred_keeps_socket:
  "Some 3 \<in> set (m_sockets (connected_state {}))
   \<and> m_sockets (onErrorOccurred (Some 3) 1 (connected_state {})) = [Some 3]
   \<and> m_sockets (removeConnection (Some 3) (connected_state {})) = []"
  by (simp add: connected_state_def onErrorOccurred_def removeConnection_def
      removeConnection_loop.simps removeAt_def registerFrame_def
      acceptConnection_def nextPendingConnection_def setEnabled_def
      Server_def enabled_def emit_def Let_def)

lemma disabled_inv_Server: "disabled_inv (Server p w)"
  by (simp add: disabled_inv_def Server_def)

lemma removeConnection_loop_Nil [simp]: "removeConnection_loop socket i [] = []"
  by (subst removeConnection_loop.simps) simp

lemma disabled_inv_setEnabled: "disabled_inv (setEnabled en s)"
  by (simp add: disabled_inv_def setEnabled_def enabled_def Let_def)

lemma disabled_inv_acceptConnection:
  "disabled_inv s \<Longrightarrow> disabled_inv (acceptConnection s)"
  by (auto simp: disabled_inv_def acceptConnection_def nextPendingConnection_def
      close_def enabled_def Let_def split: list.splits option.splits)

lemma disabled_inv_registerFrame:
  "disabled_inv s \<Longrightarrow> disabled_inv (registerFrame f s)"
  by (simp add: disabled_inv_def registerFrame_def enabled_def)

lemma disabled_inv_sendProcessedData:
  "disabled_inv s \<Longrightarrow> disabled_inv (sendProcessedData s)"
  by (simp add: disabled_inv_def sendProcessedData_def enabled_def Let_def)

lemma disabled_inv_sendRawData:
  "disabled_inv s \<Longrightarrow> disabled_inv (sendRawData data s)"
  by (simp add: disabled_inv_def sendRawData_def enabled_def)

lemma disabled_inv_removeConnection:
  "disabled_inv s \<Longrightarrow> disabled_inv (removeConnection sender s)"
  by (cases sender) (auto simp: disabled_inv_def removeConnection_def enabled_def)

lemma disabled_inv_onDataReceived:
  "disabled_inv s \<Longrightarrow> disabled_inv (onDataReceived sender bytes s)"
  by (simp add: disabled_inv_def onDataReceived_def enabled_def)

lemma disabled_inv_onErrorOccurred:
  "disabled_inv s \<Longrightarrow> disabled_inv (onErrorOccurred sender err s)"
  by (cases sender) (simp_all add: disabled_inv_def onErrorOccurred_def enabled_def)

lemma disabled_inv_step: "disabled_inv s \<Longrightarrow> disabled_inv (step op s)"
proof (cases op)
  case (Environment p w)
  assume "disabled_inv s"
  with Environment show ?thesis by (simp add: disabled_inv_def enabled_def)
next
  case (Disconnected c)
  assume "disabled_inv s"
  with Disconnected show ?thesis
    by (auto simp: disabled_inv_def enabled_def Let_def)
qed (simp_all add: disabled_inv_setEnabled disabled_inv_acceptConnection
      disabled_inv_registerFrame disabled_inv_sendProcessedData disabled_inv_sendRawData
      disabled_inv_removeConnection disabled_inv_onDataReceived
      disabled_inv_onErrorOccurred)

lemma disabled_inv_run: "disabled_inv s \<Longrightarrow> disabled_inv (run ops s)"
  unfolding run_def by (induction ops arbitrary: s) (simp_all add: disabled_inv_step)

lemma Server_initial:
  "\<not> enabled (Server p w) \<and> m_sockets (Server p w) = [] \<and> m_frames (Server p w) = []"
  by (simp add: Server_def enabled_def)

lemma disabled_reachable:
  "\<not> enabled (run ops (Server p w)) \<Longrightarrow>
   m_sockets (run ops (Server p w)) = [] \<and> m_frames (run ops (Server p w)) = []"
  using disabled_inv_run [OF disabled_inv_Server, of ops p w]
  by (simp add: disabled_inv_def)

lemma setEnabled_False_result:
  "\<not> enabled (setEnabled False s) \<and> m_sockets (setEnabled False s) = []
   \<and> m_frames (setEnabled False s) = []"
  by (simp add: setEnabled_def enabled_def Let_def)

lemma acceptConnection_disabled:
  "\<not> enabled s \<Longrightarrow> pending s = c # cs \<Longrightarrow>
   m_sockets (acceptConnection s) = m_sockets s
   \<and> pending (acceptConnection s) = cs
   \<and> trace (acceptConnection s) = trace s @ [Close c, DeleteLater c]"
  by (simp add: acceptConnection_def nextPendingConnection_def close_def enabled_def)

lemma busy_state_eq:
  "busy_state =
     \<lparr>m_enabled = True, m_sockets = [Some 3, Some 4], m_frames = [7], pending = [],
      writable = {3}, established = {3, 4}, trace = [EnabledChanged]\<rparr>"
  by (simp add: busy_state_def run_def Server_def setEnabled_def acceptConnection_def
      nextPendingConnection_def registerFrame_def enabled_def emit_def Let_def)

text \<open>
  C9. The invariant part of the claim holds: the constructor state is disabled with
  both lists empty (\<open>Server_initial\<close>), every operation preserves "disabled implies no
  sockets and no frames" (\<open>disabled_inv_step\<close>), so every reachable disabled state has
  both lists empty (\<open>disabled_reachable\<close>); a connection accepted while disabled is
  closed and not appended (\<open>acceptConnection_disabled\<close>). But disabling does not close
  every connection. With the two connected sockets 3 and 4 in \<open>m_sockets\<close>,
  \<open>setEnabled(false)\<close> aborts socket 3; inside that \<open>abort()\<close> the slot
  \<open>removeConnection\<close> takes 3 out of the list, the loop index moves on to 1, the list
  now has one entry, and the loop ends. Socket 4 is dropped by \<open>m_sockets.clear()\<close>
  without \<open>abort()\<close> or \<open>close()\<close> and stays connected.
\<close>

theorem setEnabled_False_skips_socket:
  "enabled busy_state
   \<and> m_sockets busy_state = [Some 3, Some 4]
   \<and> established busy_state = {3, 4}
   \<and> trace busy_state = [EnabledChanged]
   \<and> \<not> enabled (setEnabled False busy_state)
   \<and> m_sockets (setEnabled False busy_state) = []
   \<and> m_frames (setEnabled False busy_state) = []
   \<and> trace (setEnabled False busy_state) =
       [EnabledChanged, EnabledChanged, Abort 3, DeleteLater 3, DeleteLater 3]
   \<and> Abort 4 \<notin> set (trace (setEnabled False busy_state))
   \<and> Close 4 \<notin> set (trace (setEnabled False busy_state))
   \<and> 4 \<in> established (setEnabled False busy_state)"
  by (simp add: busy_state_eq setEnabled_def setEnabled_loop.simps abort_def
      removeConnection_def removeConnection_loop.simps removeAt_def enabled_def
      emit_def Let_def)

section \<open>Properties of the frame parser\<close>

lemmas toy_simps =
  toy_engine_def toy_parser_def toy_evaluate_def toy_property_def loadScript_def
  call_logged_def showMessageBox_def evaluation_errors_def parse_property_def
  smoke_result_def not_callable_def load_fails_def parse_def Let_def

lemma loaded_parser_eq:
  "loaded_parser =
     \<lparr>m_engine = [(''parse'', TFunction 1)], m_parseFunction = TFunction 1,
      events = [Called (TFunction 1) [TString [], TString '','']]\<rparr>"
  by (simp add: loaded_parser_def toy_simps)






text \<open>
  C4, as stated, fails. With the separator \<open>;\<close> configured in the project, the smoke
  call of \<open>loadScript\<close> still passes the literal \<open>,\<close>; and a script that leaves no callable
  \<open>parse\<close> behind leads to no call at all.
\<close>

theorem loadScript_smoke_separator_counterexample:
  "m_separator semicolon_project = '';''
   \<and> filter is_call
        (events (snd (loadScript toy_engine (m_frameParserCode semicolon_project) toy_parser)))
       = [Called (TFunction 1) [TString '''', TString '','']]
   \<and> filter is_call
        (events (snd (loadScript toy_engine (m_frameParserCode semicolon_project) toy_parser)))
       \<noteq> [Called (TFunction 1) [TString '''', TString (m_separator semicolon_project)]]
   \<and> filter is_call (events (snd (loadScript toy_engine ''var x = 1;'' toy_parser))) = []"
  by (simp add: semicolon_project_def toy_simps)

text \<open>
  C4, amended. The script-function calls made by one \<open>loadScript\<close> are: none, when the
  global \<open>parse\<close> is null or not callable after the evaluation; otherwise exactly one call
  of that \<open>parse\<close> with the empty string and the literal \<open>,\<close>.
\<close>

theorem loadScript_smoke_call:
  "filter is_call (events (snd (loadScript E script p))) =
     filter is_call (events p) @
       (if not_callable E (parse_property E script p) then []
        else [Called (parse_property E script p) [fromString E '''', fromString E '','']])"
  by (simp add: loadScript_def call_logged_def showMessageBox_def parse_property_def
      not_callable_def Let_def split_beta)

theorem loadScript_smoke_call_witness:
  "\<not> not_callable toy_engine
        (parse_property toy_engine (m_frameParserCode semicolon_project) toy_parser)
   \<and> filter is_call
        (events (snd (loadScript toy_engine (m_frameParserCode semicolon_project) toy_parser)))
       = [Called (TFunction 1) [TString '''', TString '','']]"
  using loadScript_smoke_call [of toy_engine "m_frameParserCode semicolon_project" toy_parser]
  by (simp add: semicolon_project_def toy_simps)

text \<open>
  C5. When the global property \<open>parse\<close> is null or not callable after the evaluation,
  \<open>loadScript\<close> returns false and the only thing it reports is the message box
  "No parse() function has been declared!".
\<close>

theorem loadScript_missing_parse:
  "not_callable E (parse_property E script p) \<Longrightarrow>
   \<not> fst (loadScript E script p)
   \<and> events (snd (loadScript E script p)) =
       events p @ [ShowMessageBox ''Frame parser error!''
                  ''No parse() function has been declared!'']"
  by (simp add: loadScript_def showMessageBox_def parse_property_def not_callable_def
      Let_def split_beta)

theorem loadScript_missing_parse_witness:
  "not_callable toy_engine (parse_property toy_engine ''var x = 1;'' toy_parser)
   \<and> not_callable toy_engine (parse_property toy_engine ''var parse = null;'' loaded_parser)
   \<and> \<not> fst (loadScript toy_engine ''var x = 1;'' toy_parser)
   \<and> events (snd (loadScript toy_engine ''var x = 1;'' toy_parser)) =
       [ShowMessageBox ''Frame parser error!'' ''No parse() function has been declared!'']"
  using loadScript_missing_parse [of toy_engine "''var x = 1;''" toy_parser]
  by (simp add: loaded_parser_eq toy_simps)

text \<open>
  C6, as stated, fails. A script whose evaluation collects an error and leaves no
  callable \<open>parse\<close> is reported with the missing-function message, not with the syntax
  error message.
\<close>

theorem loadScript_syntax_error_counterexample:
  "evaluation_errors toy_engine ''function parse('' toy_parser = [''1'']
   \<and> \<not> fst (loadScript toy_engine ''function parse('' toy_parser)
   \<and> events (snd (loadScript toy_engine ''function parse('' toy_parser)) =
       [ShowMessageBox ''Frame parser error!'' ''No parse() function has been declared!'']"
  by (simp add: toy_simps)

text \<open>
  C6, amended. When the evaluation collects one or more errors, \<open>loadScript\<close> returns
  false and shows exactly one message box: the syntax error message with the first
  collected entry when the global \<open>parse\<close> is callable (shown after the smoke call of
  that \<open>parse\<close>), and the missing-function message otherwise. No message of another
  error category is shown.
\<close>

theorem loadScript_evaluation_errors:
  "evaluation_errors E script p \<noteq> [] \<Longrightarrow>
   \<not> fst (loadScript E script p)
   \<and> events (snd (loadScript E script p)) =
       events p @
       (if not_callable E (parse_property E script p)
        then [ShowMessageBox ''Frame parser error!''
                ''No parse() function has been declared!'']
        else [Called (parse_property E script p) [fromString E '''', fromString E '',''],
              ShowMessageBox ''Frame parser syntax error!''
                (''Error on line '' @ hd (evaluation_errors E script p) @ ''.'')])"
  by (simp add: loadScript_def call_logged_def showMessageBox_def parse_property_def
      evaluation_errors_def not_callable_def Let_def split_beta)

theorem loadScript_evaluation_errors_witness:
  "evaluation_errors toy_engine ''function parse('' loaded_parser = [''1'']
   \<and> \<not> not_callable toy_engine (parse_property toy_engine ''function parse('' loaded_parser)
   \<and> \<not> fst (loadScript toy_engine ''function parse('' loaded_parser)
   \<and> events (snd (loadScript toy_engine ''function parse('' loaded_parser)) =
       events loaded_parser @
       [Called (TFunction 1) [TString '''', TString '',''],
        ShowMessageBox ''Frame parser syntax error!'' ''Error on line 1.'']"
  using loadScript_evaluation_errors [of toy_engine "''function parse(''" loaded_parser]
  by (simp add: loaded_parser_eq toy_simps)

section \<open>Properties of Group::read\<close>

lemma read_loop_groupId [simp]:
  "m_groupId (read_loop DR vs i g) = m_groupId g"
  by (induction vs arbitrary: i g) (simp_all add: Let_def split: option.splits)

lemma read_loop_nonempty:
  "m_datasets (read_loop DR vs i g) \<noteq> [] \<longleftrightarrow>
     m_datasets g \<noteq> []
     \<or> (\<exists>j<length vs. toObject (vs ! j) \<noteq> []
            \<and> DR (m_groupId g) (i + j) (toObject (vs ! j)) \<noteq> None)"
proof (induction vs arbitrary: i g)
  case Nil
  then show ?case by simp
next
  case (Cons v vs)
  have ex: "(\<exists>j<length (v # vs). P j) \<longleftrightarrow> P 0 \<or> (\<exists>j<length vs. P (Suc j))" for P
    by (auto simp: less_Suc_eq_0_disj)
  show ?case
    by (subst ex) (auto simp: Cons.IH Let_def isEmpty_def split: option.splits)
qed

lemma title_nonempty_iff:
  "simplified (toString (SAFE_READ object ''title'' (VString ''''))) \<noteq> [] \<longleftrightarrow>
     (\<exists>t. map_of object ''title'' = Some (JString t) \<and> simplified t \<noteq> [])"
proof (cases "map_of object ''title''")
  case None
  then show ?thesis
    by (simp add: SAFE_READ_def contains_def simplified_def trimmed_def)
next
  case (Some v)
  then show ?thesis
    by (cases v)
      (simp_all add: SAFE_READ_def contains_def json_value_def simplified_def trimmed_def)
qed

lemma array_nonempty_iff:
  "toArray v \<noteq> [] \<longleftrightarrow> (\<exists>xs. v = JArray xs \<and> xs \<noteq> [])"
  by (cases v) simp_all

lemmas group_simps =
  Group_read_def SAFE_READ_def contains_def json_value_def simplified_def trimmed_def
  isSpace_def isEmpty_def datasetCount_def titled_dataset_def old_group_def
  bad_datasets_object_def good_object_def Let_def

text \<open>
  C7. \<open>Group::read\<close> returns true exactly when the object is non-empty, its \<open>title\<close>
  member is a string whose simplified form is non-empty, its \<open>datasets\<close> member is a
  non-empty array, and some element of the array is a non-empty object that
  \<open>Dataset::read\<close> accepts (for the group's id and the element's index).
\<close>

theorem Group_read_true_iff:
  "fst (Group_read Dataset_read object g) \<longleftrightarrow>
     object \<noteq> []
     \<and> (\<exists>title. map_of object ''title'' = Some (JString title) \<and> simplified title \<noteq> [])
     \<and> (\<exists>array. json_value object ''datasets'' = JArray array \<and> array \<noteq> []
          \<and> (\<exists>i<length array. \<exists>dataset. array ! i = JObject dataset \<and> dataset \<noteq> []
                \<and> Dataset_read (m_groupId g) i dataset \<noteq> None))"
proof -
  let ?array = "toArray (json_value object ''datasets'')"
  have obj: "(toObject v \<noteq> [] \<and> Dataset_read (m_groupId g) i (toObject v) \<noteq> None) \<longleftrightarrow>
      (\<exists>d. v = JObject d \<and> d \<noteq> [] \<and> Dataset_read (m_groupId g) i d \<noteq> None)"
    for v i by (cases v) simp_all
  have "fst (Group_read Dataset_read object g) \<longleftrightarrow>
     object \<noteq> []
     \<and> simplified (toString (SAFE_READ object ''title'' (VString ''''))) \<noteq> []
     \<and> ?array \<noteq> []
     \<and> (\<exists>i<length ?array. toObject (?array ! i) \<noteq> []
           \<and> Dataset_read (m_groupId g) i (toObject (?array ! i)) \<noteq> None)"
    by (auto simp: Group_read_def Let_def isEmpty_def datasetCount_def read_loop_nonempty)
  also have "\<dots> \<longleftrightarrow>
     object \<noteq> []
     \<and> (\<exists>title. map_of object ''title'' = Some (JString title) \<and> simplified title \<noteq> [])
     \<and> (\<exists>array. json_value object ''datasets'' = JArray array \<and> array \<noteq> []
          \<and> (\<exists>i<length array. toObject (array ! i) \<noteq> []
                \<and> Dataset_read (m_groupId g) i (toObject (array ! i)) \<noteq> None))"
    unfolding title_nonempty_iff
    by (cases "json_value object ''datasets''") auto
  finally show ?thesis by (simp only: obj)
qed

theorem Group_read_true_iff_witness:
  "fst (Group_read titled_dataset good_object old_group)
   \<and> good_object \<noteq> []
   \<and> map_of good_object ''title'' = Some (JString ''  New   title '')
   \<and> simplified ''  New   title '' = ''New title''
   \<and> json_value good_object ''datasets'' = JArray [JNull, JObject [(''title'', JString ''x'')]]
   \<and> titled_dataset (m_groupId old_group) 1 [(''title'', JString ''x'')] = Some ''x''
   \<and> \<not> fst (Group_read titled_dataset bad_datasets_object old_group)
   \<and> \<not> fst (Group_read titled_dataset [] old_group)"
  using Group_read_true_iff [of titled_dataset good_object old_group]
        Group_read_true_iff [of titled_dataset bad_datasets_object old_group]
  by (simp add: group_simps)

text \<open>
  C8, as stated, fails. An object with a title and a non-empty \<open>datasets\<close> array none of
  whose elements is accepted is rejected, but by then title and widget have been
  overwritten and the dataset list has been cleared.
\<close>

theorem Group_read_rejects_changed_counterexample:
  "\<not> fst (Group_read titled_dataset bad_datasets_object old_group)
   \<and> snd (Group_read titled_dataset bad_datasets_object old_group) \<noteq> old_group
   \<and> m_title old_group = ''Old''
   \<and> m_title (snd (Group_read titled_dataset bad_datasets_object old_group)) = ''New title''
   \<and> m_widget old_group = ''map''
   \<and> m_widget (snd (Group_read titled_dataset bad_datasets_object old_group)) = ''''
   \<and> m_datasets old_group = [''lat'']
   \<and> m_datasets (snd (Group_read titled_dataset bad_datasets_object old_group)) = []"
  by (simp add: group_simps)

lemma read_loop_only_datasets:
  "read_loop DR vs i g = g\<lparr>m_datasets := m_datasets (read_loop DR vs i g)\<rparr>"
proof (induction vs arbitrary: i g)
  case Nil
  show ?case by simp
next
  case (Cons v vs)
  let ?g1 = "if \<not> isEmpty (toObject v)
             then (case DR (m_groupId g) i (toObject v) of
                     Some dataset \<Rightarrow> g\<lparr>m_datasets := m_datasets g @ [dataset]\<rparr>
                   | None \<Rightarrow> g)
             else g"
  have step: "read_loop DR (v # vs) i g = read_loop DR vs (Suc i) ?g1"
    by (simp add: Let_def)
  have g1: "?g1 = g\<lparr>m_datasets := m_datasets ?g1\<rparr>"
    by (simp split: option.splits)
  have "read_loop DR vs (Suc i) ?g1 =
        ?g1\<lparr>m_datasets := m_datasets (read_loop DR vs (Suc i) ?g1)\<rparr>"
    by (rule Cons.IH)
  also have "\<dots> = g\<lparr>m_datasets := m_datasets (read_loop DR vs (Suc i) ?g1)\<rparr>"
    by (subst g1) simp
  finally show ?case unfolding step .
qed

text \<open>
  C8, amended. After a rejected \<open>Group::read\<close> the group is unchanged when the object is
  empty, its simplified title is empty or its \<open>datasets\<close> array is empty; otherwise the
  group has the object's simplified title and widget and an empty dataset list (the
  group id is kept).
\<close>

theorem Group_read_rejected_state:
  "\<not> fst (Group_read Dataset_read object g) \<Longrightarrow>
   snd (Group_read Dataset_read object g) =
     (if object \<noteq> []
         \<and> simplified (toString (SAFE_READ object ''title'' (VString ''''))) \<noteq> []
         \<and> toArray (json_value object ''datasets'') \<noteq> []
      then g\<lparr>m_title := simplified (toString (SAFE_READ object ''title'' (VString ''''))),
             m_widget := simplified (toString (SAFE_READ object ''widget'' (VString ''''))),
             m_datasets := []\<rparr>
      else g)"
proof -
  assume rej: "\<not> fst (Group_read Dataset_read object g)"
  let ?title = "simplified (toString (SAFE_READ object ''title'' (VString '''')))"
  let ?widget = "simplified (toString (SAFE_READ object ''widget'' (VString '''')))"
  let ?array = "toArray (json_value object ''datasets'')"
  let ?g1 = "g\<lparr>m_title := ?title, m_widget := ?widget, m_datasets := []\<rparr>"
  show ?thesis
  proof (cases "object \<noteq> [] \<and> ?title \<noteq> [] \<and> ?array \<noteq> []")
    case False
    then show ?thesis by (auto simp: Group_read_def isEmpty_def Let_def)
  next
    case True
    with rej have "m_datasets (read_loop Dataset_read ?array 0 ?g1) = []"
      by (simp add: Group_read_def isEmpty_def datasetCount_def Let_def)
    with read_loop_only_datasets [of Dataset_read ?array 0 ?g1]
    have "read_loop Dataset_read ?array 0 ?g1 = ?g1" by simp
    with True show ?thesis by (simp add: Group_read_def isEmpty_def Let_def)
  qed
qed

theorem Group_read_rejected_state_witness:
  "\<not> fst (Group_read titled_dataset bad_datasets_object old_group)
   \<and> snd (Group_read titled_dataset bad_datasets_object old_group) =
       \<lparr>m_groupId = 2, m_title = ''New title'', m_widget = '''', m_datasets = []\<rparr>
   \<and> \<not> fst (Group_read titled_dataset [(''title'', JString '' ''), (''datasets'', JArray [JNull])]
              old_group)
   \<and> snd (Group_read titled_dataset [(''title'', JString '' ''), (''datasets'', JArray [JNull])]
           old_group) = old_group"
  using Group_read_rejected_state [of titled_dataset bad_datasets_object old_group]
        Group_read_rejected_state
          [of titled_dataset "[(''title'', JString '' ''), (''datasets'', JArray [JNull])]"
              old_group]
  by (simp add: group_simps)

end
